theory Spec2Isabelle
  imports Complex_Main "HOL-Library.Product_Lexorder"
begin

section \<open>Python values\<close>

text \<open>
  The service is \<^verbatim>\<open>server.py\<close>: two pure validators, a POST handler that upserts the
  latest location of a phone number into a MongoDB collection and a GET handler that
  reads it back. (\<^verbatim>\<open>trackernew.py\<close> is an earlier in-memory variant of the same service,
  without validation; it is not modelled.) A Python \<^verbatim>\<open>str\<close> is a sequence of Unicode
  code points, so a string is a list of code points here; \<open>ustr\<close> embeds the ASCII
  literals of the source.
\<close>

type_synonym ustring = "nat list"

definition ustr :: "string \<Rightarrow> ustring" where
  "ustr s = map of_char s"

text \<open>
  A Python \<^verbatim>\<open>float\<close> is an IEEE double: a finite value, an infinity or NaN. A finite
  double is written as the rational number it denotes; the model does not restrict the
  rationals to the representable ones, so what is proved for every \<open>Finite q\<close> holds for
  every double. The comparison \<^verbatim>\<open><=\<close> is false as soon as one side is NaN.
\<close>

datatype pyfloat = Finite rat | PosInf | NegInf | NaN

fun fle :: "pyfloat \<Rightarrow> pyfloat \<Rightarrow> bool" where
  "fle NaN y = False"
| "fle x NaN = False"
| "fle NegInf y = True"
| "fle x PosInf = True"
| "fle PosInf y = False"
| "fle x NegInf = False"
| "fle (Finite a) (Finite b) = (a \<le> b)"

text \<open>The values \<^verbatim>\<open>request.get_json()\<close> can return, and the exceptions of the model.\<close>

datatype pyval =
    PNone
  | PBool bool
  | PInt int
  | PFloat pyfloat
  | PStr ustring
  | PList "pyval list"
  | PDict "(ustring \<times> pyval) list"

datatype pyexn = TypeError | ValueError | OverflowError | AttributeError | BadRequest

text \<open>
  A dict is the list of its items. \<^verbatim>\<open>d.get(key)\<close> is the value stored under the key,
  \<^verbatim>\<open>None\<close> when the key is absent.
\<close>

definition dict_get :: "(ustring \<times> pyval) list \<Rightarrow> ustring \<Rightarrow> pyval" where
  "dict_get kv k = (case map_of kv k of None \<Rightarrow> PNone | Some v \<Rightarrow> v)"

subsection \<open>\<^verbatim>\<open>str.strip()\<close> and the character classes\<close>

text \<open>
  \<^verbatim>\<open>str.strip()\<close> without argument removes the leading and trailing characters for which
  \<^verbatim>\<open>str.isspace\<close> holds: the ASCII white space, the separators U+001C to U+001F, and
  the Unicode spaces listed below.
\<close>

definition isspace :: "nat \<Rightarrow> bool" where
  "isspace c \<longleftrightarrow>
     c \<in> set [9, 10, 11, 12, 13, 28, 29, 30, 31, 32, 133, 160, 5760,
              8192, 8193, 8194, 8195, 8196, 8197, 8198, 8199, 8200, 8201, 8202,
              8232, 8233, 8239, 8287, 12288]"

definition py_strip :: "ustring \<Rightarrow> ustring" where
  "py_strip s = rev (dropWhile isspace (rev (dropWhile isspace s)))"

text \<open>
  In a \<^verbatim>\<open>str\<close> pattern compiled without \<^verbatim>\<open>re.ASCII\<close>, \<^verbatim>\<open>\d\<close> matches every Unicode
  decimal digit (general category Nd), the characters for which \<^verbatim>\<open>str.isdecimal\<close>
  holds. They come in blocks of consecutive code points, given as (first, count); the
  table is that of Unicode 14.0.
\<close>

definition nd_blocks :: "(nat \<times> nat) list" where
  "nd_blocks = [
    (48, 10), (1632, 10), (1776, 10), (1984, 10), (2406, 10), (2534, 10),
    (2662, 10), (2790, 10), (2918, 10), (3046, 10), (3174, 10), (3302, 10),
    (3430, 10), (3558, 10), (3664, 10), (3792, 10), (3872, 10), (4160, 10),
    (4240, 10), (6112, 10), (6160, 10), (6470, 10), (6608, 10), (6784, 10),
    (6800, 10), (6992, 10), (7088, 10), (7232, 10), (7248, 10), (42528, 10),
    (43216, 10), (43264, 10), (43472, 10), (43504, 10), (43600, 10),
    (44016, 10), (65296, 10), (66720, 10), (68912, 10), (69734, 10),
    (69872, 10), (69942, 10), (70096, 10), (70384, 10), (70736, 10),
    (70864, 10), (71248, 10), (71360, 10), (71472, 10), (71904, 10),
    (72016, 10), (72784, 10), (73040, 10), (73120, 10), (92768, 10),
    (92864, 10), (93008, 10), (120782, 50), (123200, 10), (123632, 10),
    (125264, 10), (130032, 10)]"

fun in_blocks :: "nat \<Rightarrow> (nat \<times> nat) list \<Rightarrow> bool" where
  "in_blocks c [] = False"
| "in_blocks c ((b, n) # bs) = ((b \<le> c \<and> c < b + n) \<or> in_blocks c bs)"

definition isdecimal :: "nat \<Rightarrow> bool" where
  "isdecimal c = in_blocks c nd_blocks"

definition is_ascii_digit :: "nat \<Rightarrow> bool" where
  "is_ascii_digit c \<longleftrightarrow> 48 \<le> c \<and> c \<le> 57"

section \<open>The validation layer\<close>

subsection \<open>The phone pattern\<close>

text \<open>
  \<^verbatim>\<open>PHONE_REGEX = re.compile(r"^\+?\d{7,15}$")\<close>. A pattern of this shape is a sequence of
  items: the anchors \<^verbatim>\<open>^\<close> and \<^verbatim>\<open>$\<close>, an optional character \<^verbatim>\<open>x?\<close> and a bounded
  repetition \<^verbatim>\<open>x{m,n}\<close>, where \<open>x\<close> is a literal or the class \<^verbatim>\<open>\d\<close>.
  \<open>re_match_at r i s\<close> says that the items \<open>r\<close> match some prefix of the rest \<open>s\<close> of
  the subject, \<open>i\<close> characters into it. Without \<^verbatim>\<open>re.MULTILINE\<close>, \<^verbatim>\<open>^\<close> matches at
  position 0 only and \<^verbatim>\<open>$\<close> matches at the end of the subject and before a line feed
  that ends it. \<^verbatim>\<open>Pattern.match\<close> tries position 0 only.
\<close>

datatype cclass = Lit nat | Digit

datatype item = Bol | Eol | Opt cclass | Rep nat nat cclass

fun cc_match :: "cclass \<Rightarrow> nat \<Rightarrow> bool" where
  "cc_match (Lit c) x = (x = c)"
| "cc_match Digit x = isdecimal x"

fun re_match_at :: "item list \<Rightarrow> nat \<Rightarrow> ustring \<Rightarrow> bool" where
  "re_match_at [] i s = True"
| "re_match_at (Bol # r) i s = (i = 0 \<and> re_match_at r i s)"
| "re_match_at (Eol # r) i s = ((s = [] \<or> s = [10]) \<and> re_match_at r i s)"
| "re_match_at (Opt a # r) i [] = re_match_at r i []"
| "re_match_at (Opt a # r) i (x # t) =
     ((cc_match a x \<and> re_match_at r (Suc i) t) \<or> re_match_at r i (x # t))"
| "re_match_at (Rep m n a # r) i [] = (m = 0 \<and> re_match_at r i [])"
| "re_match_at (Rep m n a # r) i (x # t) =
     ((0 < n \<and> cc_match a x \<and> re_match_at (Rep (m - 1) (n - 1) a # r) (Suc i) t)
      \<or> (m = 0 \<and> re_match_at r i (x # t)))"

definition re_match :: "item list \<Rightarrow> ustring \<Rightarrow> bool" where
  "re_match r s = re_match_at r 0 s"

definition PHONE_REGEX :: "item list" where
  "PHONE_REGEX = [Bol, Opt (Lit 43), Rep 7 15 Digit, Eol]"

definition validate_phone :: "pyval \<Rightarrow> bool" where
  "validate_phone ph =
     (case ph of
        PStr s \<Rightarrow> re_match PHONE_REGEX (py_strip s)
      | _ \<Rightarrow> False)"

text \<open>
  The shape the pattern describes, over a given notion of digit: an optional leading
  \<^verbatim>\<open>+\<close> (code point 43), then 7 to 15 digits. \<open>spec_validate_phone\<close> is the validator
  in the words of the specification: a string that, once trimmed, is an optional
  \<^verbatim>\<open>+\<close> followed by 7 to 15 ASCII digits.
\<close>

definition phone_shape :: "(nat \<Rightarrow> bool) \<Rightarrow> ustring \<Rightarrow> bool" where
  "phone_shape dig s \<longleftrightarrow>
     (let ds = (case s of [] \<Rightarrow> [] | x # t \<Rightarrow> if x = 43 then t else s)
      in 7 \<le> length ds \<and> length ds \<le> 15 \<and> list_all dig ds)"

definition spec_validate_phone :: "pyval \<Rightarrow> bool" where
  "spec_validate_phone raw =
     (case raw of
        PStr s \<Rightarrow> phone_shape is_ascii_digit (py_strip s)
      | _ \<Rightarrow> False)"

subsection \<open>Coordinates\<close>

text \<open>
  \<^verbatim>\<open>float(x)\<close>. \<^verbatim>\<open>None\<close>, lists and dicts raise \<^verbatim>\<open>TypeError\<close>; a \<^verbatim>\<open>bool\<close> is 0.0 or
  1.0; a \<^verbatim>\<open>float\<close> is returned as it is. An \<^verbatim>\<open>int\<close> is rounded to 53 significant
  bits, ties to even (\<open>bit_length\<close> is \<^verbatim>\<open>int.bit_length\<close> on a magnitude), and raises
  \<^verbatim>\<open>OverflowError\<close> when the rounded value reaches \<open>2 ^ 1024\<close>. Parsing a string
  belongs to the Python runtime and is a parameter \<open>sf\<close> of the model: \<open>sf s\<close> is the
  value of \<^verbatim>\<open>float(s)\<close>, and \<open>None\<close> when it raises \<^verbatim>\<open>ValueError\<close>.
\<close>

function bit_length :: "int \<Rightarrow> nat" where
  "bit_length n = (if n \<le> 0 then 0 else Suc (bit_length (n div 2)))"
  by pat_completeness auto
termination
  by (relation "measure nat") auto

declare bit_length.simps [simp del]

definition int_to_float :: "int \<Rightarrow> pyexn + pyfloat" where
  "int_to_float n =
     (let m = \<bar>n\<bar>;
          sh = bit_length m - 53;
          q = m div 2 ^ sh;
          r = m mod 2 ^ sh;
          q' = (if 2 ^ sh < 2 * r \<or> (2 * r = 2 ^ sh \<and> odd q) then q + 1 else q);
          v = q' * 2 ^ sh
      in if 2 ^ 1024 \<le> v then Inl OverflowError
         else Inr (Finite (of_int (if n < 0 then - v else v))))"

fun py_float :: "(ustring \<Rightarrow> pyfloat option) \<Rightarrow> pyval \<Rightarrow> pyexn + pyfloat" where
  "py_float sf PNone = Inl TypeError"
| "py_float sf (PBool b) = Inr (Finite (if b then 1 else 0))"
| "py_float sf (PInt n) = int_to_float n"
| "py_float sf (PFloat x) = Inr x"
| "py_float sf (PStr s) = (case sf s of None \<Rightarrow> Inl ValueError | Some x \<Rightarrow> Inr x)"
| "py_float sf (PList xs) = Inl TypeError"
| "py_float sf (PDict kv) = Inl TypeError"

text \<open>
  \<^verbatim>\<open>validate_lat_lon\<close>: the \<^verbatim>\<open>except\<close> clause catches \<^verbatim>\<open>TypeError\<close> and
  \<^verbatim>\<open>ValueError\<close>; any other exception of the conversion leaves the function.
\<close>

definition validate_lat_lon ::
  "(ustring \<Rightarrow> pyfloat option) \<Rightarrow> pyval \<Rightarrow> pyval \<Rightarrow> pyexn + bool" where
  "validate_lat_lon sf lat lon =
     (case py_float sf lat of
        Inl e \<Rightarrow> if e = TypeError \<or> e = ValueError then Inr False else Inl e
      | Inr lat' \<Rightarrow>
          (case py_float sf lon of
             Inl e \<Rightarrow> if e = TypeError \<or> e = ValueError then Inr False else Inl e
           | Inr lon' \<Rightarrow>
               if \<not> (fle (Finite (- 90)) lat' \<and> fle lat' (Finite 90)
                      \<and> fle (Finite (- 180)) lon' \<and> fle lon' (Finite 180))
               then Inr False
               else Inr True))"

text \<open>The ranges in the words of the specification.\<close>

definition lat_in_range :: "pyfloat \<Rightarrow> bool" where
  "lat_in_range x = (case x of Finite q \<Rightarrow> - 90 \<le> q \<and> q \<le> 90 | _ \<Rightarrow> False)"

definition lon_in_range :: "pyfloat \<Rightarrow> bool" where
  "lon_in_range x = (case x of Finite q \<Rightarrow> - 180 \<le> q \<and> q \<le> 180 | _ \<Rightarrow> False)"

text \<open>
  The validator in the words of the specification: true when both inputs are parseable
  as floating-point numbers and lie in the ranges, false for every other pair.
\<close>

definition spec_validate_lat_lon ::
  "(ustring \<Rightarrow> pyfloat option) \<Rightarrow> pyval \<Rightarrow> pyval \<Rightarrow> bool" where
  "spec_validate_lat_lon sf lat lon =
     (case py_float sf lat of
        Inl e \<Rightarrow> False
      | Inr la \<Rightarrow>
          (case py_float sf lon of
             Inl e \<Rightarrow> False
           | Inr lo \<Rightarrow> lat_in_range la \<and> lon_in_range lo))"

section \<open>Time stamps\<close>

text \<open>
  A naive \<^verbatim>\<open>datetime\<close>, as \<^verbatim>\<open>datetime.utcnow()\<close> returns it. Two of them compare by
  their fields, most significant first. \<^verbatim>\<open>isoformat()\<close> prints
  \<^verbatim>\<open>YYYY-MM-DDTHH:MM:SS\<close>, followed by \<^verbatim>\<open>.ffffff\<close> when the microseconds are not zero.
\<close>

record datetime =
  year :: nat
  month :: nat
  day :: nat
  hour :: nat
  minute :: nat
  second :: nat
  microsecond :: nat

definition dt_key :: "datetime \<Rightarrow> nat \<times> nat \<times> nat \<times> nat \<times> nat \<times> nat \<times> nat" where
  "dt_key d = (year d, month d, day d, hour d, minute d, second d, microsecond d)"

fun dec :: "nat \<Rightarrow> ustring" where
  "dec n = (if n < 10 then [48 + n] else dec (n div 10) @ [48 + n mod 10])"

declare dec.simps [simp del]

definition zfill :: "nat \<Rightarrow> ustring \<Rightarrow> ustring" where
  "zfill w s = replicate (w - length s) 48 @ s"

definition isoformat :: "datetime \<Rightarrow> ustring" where
  "isoformat d =
     zfill 4 (dec (year d)) @ ustr ''-'' @ zfill 2 (dec (month d)) @ ustr ''-''
     @ zfill 2 (dec (day d)) @ ustr ''T'' @ zfill 2 (dec (hour d)) @ ustr '':''
     @ zfill 2 (dec (minute d)) @ ustr '':'' @ zfill 2 (dec (second d))
     @ (if microsecond d = 0 then [] else ustr ''.'' @ zfill 6 (dec (microsecond d)))"

section \<open>The record store\<close>

text \<open>
  A document of the collection, and the collection itself: its documents in natural
  order, and \<open>pending\<close>, the answers the server will give to the next operations, in
  order: \<open>None\<close> when the operation is carried out, \<open>Some msg\<close> when it raises a
  \<^verbatim>\<open>PyMongoError\<close> whose \<^verbatim>\<open>str\<close> is \<open>msg\<close> and leaves the documents as they are. Once the
  list is used up every operation is carried out. Each operation issued takes one
  answer, so the length of \<open>pending\<close> counts the operations.
\<close>

record location =
  latitude :: pyfloat
  longitude :: pyfloat

record doc =
  phone :: ustring
  location :: location
  updated_at :: datetime

record collection =
  docs :: "doc list"
  pending :: "ustring option list"

definition next_outcome :: "collection \<Rightarrow> ustring option \<times> collection" where
  "next_outcome c =
     (case pending c of
        [] \<Rightarrow> (None, c)
      | out # outs \<Rightarrow> (out, c\<lparr>pending := outs\<rparr>))"

text \<open>
  A \<^verbatim>\<open>datetime\<close> is stored as a BSON date, which counts milliseconds: PyMongo encodes
  it with \<^verbatim>\<open>microsecond // 1000\<close>, so the microseconds below a millisecond are dropped
  and the collection gives back \<open>bson_date t\<close> for a date \<open>t\<close> it was given.
\<close>

definition bson_date :: "datetime \<Rightarrow> datetime" where
  "bson_date t = t\<lparr>microsecond := microsecond t div 1000 * 1000\<rparr>"

text \<open>
  \<^verbatim>\<open>update_one({"phone": k}, {"$set": {"location": l, "updated_at": t}}, upsert=True)\<close>:
  the first document whose phone is \<open>k\<close> gets the two fields; when there is none, a
  document made of the filter and the fields is inserted.
\<close>

fun upsert_doc :: "ustring \<Rightarrow> location \<Rightarrow> datetime \<Rightarrow> doc list \<Rightarrow> doc list" where
  "upsert_doc k l t [] = [\<lparr>phone = k, location = l, updated_at = t\<rparr>]"
| "upsert_doc k l t (d # ds) =
     (if phone d = k then d\<lparr>location := l, updated_at := t\<rparr> # ds
      else d # upsert_doc k l t ds)"

definition update_one ::
  "ustring \<Rightarrow> location \<Rightarrow> datetime \<Rightarrow> collection \<Rightarrow> (ustring + unit) \<times> collection" where
  "update_one k l t c =
     (case next_outcome c of
        (Some msg, c') \<Rightarrow> (Inl msg, c')
      | (None, c') \<Rightarrow> (Inr (), c'\<lparr>docs := upsert_doc k l (bson_date t) (docs c')\<rparr>))"

text \<open>\<^verbatim>\<open>find_one({"phone": k})\<close>: the first document whose phone is \<open>k\<close>, or \<^verbatim>\<open>None\<close>.\<close>

definition find_one :: "ustring \<Rightarrow> collection \<Rightarrow> (ustring + doc option) \<times> collection" where
  "find_one k c =
     (case next_outcome c of
        (Some msg, c') \<Rightarrow> (Inl msg, c')
      | (None, c') \<Rightarrow> (Inr (find (\<lambda>d. phone d = k) (docs c')), c'))"

text \<open>The unique index on \<^verbatim>\<open>phone\<close>: no two documents share a phone.\<close>

definition unique_phone :: "collection \<Rightarrow> bool" where
  "unique_phone c \<longleftrightarrow> distinct (map phone (docs c))"

section \<open>The HTTP handlers\<close>

text \<open>
  A response is the JSON body given to \<^verbatim>\<open>jsonify\<close> and the status. Of a request the
  POST handler reads \<^verbatim>\<open>request.is_json\<close>, which looks at the declared content type, and
  \<^verbatim>\<open>request.get_json()\<close>, the parsed body: \<open>None\<close> here when the body does not parse,
  where Flask raises \<^verbatim>\<open>BadRequest\<close>.
\<close>

type_synonym response = "pyval \<times> nat"

record request =
  is_json :: bool
  get_json :: "pyval option"

text \<open>A field of a response whose body is a JSON object.\<close>

definition body_get :: "response \<Rightarrow> ustring \<Rightarrow> pyval" where
  "body_get r k = (case fst r of PDict kv \<Rightarrow> dict_get kv k | _ \<Rightarrow> PNone)"

text \<open>
  \<^verbatim>\<open>update_location\<close>, the handler of \<^verbatim>\<open>POST /api/location\<close>. \<open>now\<close> is what
  \<^verbatim>\<open>datetime.utcnow()\<close> returns during the call. An exception that leaves the handler is
  \<open>Inl\<close>: \<^verbatim>\<open>.get\<close> on a body that is not a dict raises \<^verbatim>\<open>AttributeError\<close>.
\<close>

definition update_location ::
  "(ustring \<Rightarrow> pyfloat option) \<Rightarrow> datetime \<Rightarrow> request \<Rightarrow> collection
     \<Rightarrow> (pyexn + response) \<times> collection" where
  "update_location sf now req c =
     (if \<not> is_json req
      then (Inr (PDict [(ustr ''error'', PStr (ustr ''Request body must be JSON''))], 400), c)
      else
        case get_json req of
          None \<Rightarrow> (Inl BadRequest, c)
        | Some (PDict kv) \<Rightarrow>
            (let ph = dict_get kv (ustr ''phone'');
                 lat = dict_get kv (ustr ''latitude'');
                 lon = dict_get kv (ustr ''longitude'')
             in
               if ph = PNone \<or> lat = PNone \<or> lon = PNone
               then (Inr (PDict [(ustr ''error'',
                       PStr (ustr ''Missing required fields: phone, latitude, longitude''))],
                     400), c)
               else if \<not> validate_phone ph
               then (Inr (PDict [(ustr ''error'',
                       PStr (ustr (''Invalid phone format. Use digits with optional ''
                                   @ ''leading '' @ [CHR 0x27] @ ''+'' @ [CHR 0x27]
                                   @ '', 7-15 digits.'')))],
                     400), c)
               else
                 case validate_lat_lon sf lat lon of
                   Inl e \<Rightarrow> (Inl e, c)
                 | Inr ok \<Rightarrow>
                     if \<not> ok
                     then (Inr (PDict [(ustr ''error'',
                             PStr (ustr ''Invalid latitude/longitude range or format.''))],
                           400), c)
                     else
                       (case ph of
                          PStr s \<Rightarrow>
                            (case py_float sf lat of
                               Inl e \<Rightarrow> (Inl e, c)
                             | Inr la \<Rightarrow>
                                 (case py_float sf lon of
                                    Inl e \<Rightarrow> (Inl e, c)
                                  | Inr lo \<Rightarrow>
                                      (let d = \<lparr>phone = py_strip s,
                                                location = \<lparr>latitude = la, longitude = lo\<rparr>,
                                                updated_at = now\<rparr>
                                       in
                                         case update_one (phone d) (location d) (updated_at d) c of
                                           (Inl msg, c') \<Rightarrow>
                                             (Inr (PDict [(ustr ''error'', PStr (ustr ''Database error'')),
                                                          (ustr ''details'', PStr msg)],
                                                   500), c')
                                         | (Inr u, c') \<Rightarrow>
                                             (Inr (PDict [(ustr ''message'', PStr (ustr ''Location stored'')),
                                                          (ustr ''phone'', PStr (phone d)),
                                                          (ustr ''location'',
                                                             PDict [(ustr ''latitude'', PFloat (latitude (location d))),
                                                                    (ustr ''longitude'', PFloat (longitude (location d)))]),
                                                          (ustr ''updated_at'',
                                                             PStr (isoformat (updated_at d) @ ustr ''Z''))],
                                                   200), c'))))
                        | _ \<Rightarrow> (Inl AttributeError, c)))
        | Some _ \<Rightarrow> (Inl AttributeError, c))"

text \<open>
  \<^verbatim>\<open>get_latest_location\<close>, the handler of \<^verbatim>\<open>GET /api/location/<phone>\<close>. The path
  parameter is a string; it is validated, and looked up as it was given.
\<close>

definition get_latest_location :: "ustring \<Rightarrow> collection \<Rightarrow> response \<times> collection" where
  "get_latest_location ph c =
     (if \<not> validate_phone (PStr ph)
      then ((PDict [(ustr ''error'', PStr (ustr ''Invalid phone format.''))], 400), c)
      else
        case find_one ph c of
          (Inl msg, c') \<Rightarrow>
            ((PDict [(ustr ''error'', PStr (ustr ''Database error'')),
                     (ustr ''details'', PStr msg)], 500), c')
        | (Inr None, c') \<Rightarrow>
            ((PDict [(ustr ''error'', PStr (ustr ''No location found for this phone number''))],
              404), c')
        | (Inr (Some d), c') \<Rightarrow>
            ((PDict [(ustr ''phone'', PStr (phone d)),
                     (ustr ''location'',
                        PDict [(ustr ''latitude'', PFloat (latitude (location d))),
                               (ustr ''longitude'', PFloat (longitude (location d)))]),
                     (ustr ''updated_at'', PStr (isoformat (updated_at d) @ ustr ''Z''))],
              200), c'))"

section \<open>Runs of the service\<close>

text \<open>
  A run of POST requests, each with the clock reading of its call. \<open>stored\<close> says
  that a call answered 200. \<open>prepared_doc\<close> is the document a request asks to store:
  the trimmed phone, the converted coordinates and the clock reading; \<open>as_stored\<close> is
  that document as the collection keeps it. \<open>writes k\<close> lists, oldest first, the
  documents of the calls of a run that answered 200 for the key \<open>k\<close>. \<open>next_ok\<close> says
  that the next operation on the collection is carried out.
\<close>

fun posts ::
  "(ustring \<Rightarrow> pyfloat option) \<Rightarrow> collection \<Rightarrow> (datetime \<times> request) list \<Rightarrow> collection" where
  "posts sf c [] = c"
| "posts sf c ((now, req) # rs) = posts sf (snd (update_location sf now req c)) rs"

definition stored :: "pyexn + response \<Rightarrow> bool" where
  "stored r = (case r of Inl e \<Rightarrow> False | Inr (b, st) \<Rightarrow> st = 200)"

definition prepared_doc ::
  "(ustring \<Rightarrow> pyfloat option) \<Rightarrow> datetime \<Rightarrow> request \<Rightarrow> doc option" where
  "prepared_doc sf now req =
     (case get_json req of
        Some (PDict kv) \<Rightarrow>
          (case (dict_get kv (ustr ''phone''),
                 py_float sf (dict_get kv (ustr ''latitude'')),
                 py_float sf (dict_get kv (ustr ''longitude''))) of
             (PStr s, Inr la, Inr lo) \<Rightarrow>
               Some \<lparr>phone = py_strip s,
                     location = \<lparr>latitude = la, longitude = lo\<rparr>,
                     updated_at = now\<rparr>
           | _ \<Rightarrow> None)
      | _ \<Rightarrow> None)"

fun writes ::
  "(ustring \<Rightarrow> pyfloat option) \<Rightarrow> ustring \<Rightarrow> collection \<Rightarrow> (datetime \<times> request) list
     \<Rightarrow> doc list" where
  "writes sf k c [] = []"
| "writes sf k c ((now, req) # rs) =
     (if stored (fst (update_location sf now req c))
      then (case prepared_doc sf now req of
              None \<Rightarrow> []
            | Some d \<Rightarrow> if phone d = k then [d] else [])
      else [])
     @ writes sf k (snd (update_location sf now req c)) rs"

definition as_stored :: "doc \<Rightarrow> doc" where
  "as_stored d = d\<lparr>updated_at := bson_date (updated_at d)\<rparr>"

definition next_ok :: "collection \<Rightarrow> bool" where
  "next_ok c = (case pending c of [] \<Rightarrow> True | out # outs \<Rightarrow> out = None)"

section \<open>Sample inputs\<close>

text \<open>
  Inputs for the examples. \<open>sample_float\<close> gives the value of \<^verbatim>\<open>float\<close> on the strings
  the examples use: \<^verbatim>\<open>"45.0"\<close>, \<^verbatim>\<open>"-120.5"\<close> and \<^verbatim>\<open>"nan"\<close> convert, \<^verbatim>\<open>"abc"\<close> does
  not; no example uses another string. \<open>post_body\<close> is a request with a JSON object
  of the three fields.
\<close>

definition sample_float :: "ustring \<Rightarrow> pyfloat option" where
  "sample_float s =
     (if s = ustr ''45.0'' then Some (Finite 45)
      else if s = ustr ''-120.5'' then Some (Finite (- 241 / 2))
      else if s = ustr ''nan'' then Some NaN
      else None)"

definition t0 :: datetime where
  "t0 = \<lparr>year = 2024, month = 1, day = 2, hour = 3, minute = 4, second = 5, microsecond = 7\<rparr>"

definition t1 :: datetime where
  "t1 = \<lparr>year = 2024, month = 1, day = 2, hour = 3, minute = 5, second = 0,
          microsecond = 123456\<rparr>"

definition empty_collection :: collection where
  "empty_collection = \<lparr>docs = [], pending = []\<rparr>"

definition post_body :: "ustring \<Rightarrow> pyval \<Rightarrow> pyval \<Rightarrow> request" where
  "post_body p lat lon =
     \<lparr>is_json = True,
      get_json = Some (PDict [(ustr ''phone'', PStr p), (ustr ''latitude'', lat),
                              (ustr ''longitude'', lon)])\<rparr>"

definition failing_collection :: collection where
  "failing_collection =
     \<lparr>docs = [], pending = [Some (ustr ''connection refused'')]\<rparr>"

section \<open>Facts about the model\<close>

lemma ustr_eq_iff [simp]: "ustr a = ustr b \<longleftrightarrow> a = b"
  unfolding ustr_def by (simp add: inj_on_def)

lemma isspace_10: "isspace 10"
  by (simp add: isspace_def)

lemma not_dec_43: "\<not> isdecimal 43"
  by (simp add: isdecimal_def nd_blocks_def)

lemma ex_nat_split: "(\<exists>k::nat. P k) \<longleftrightarrow> P 0 \<or> (\<exists>k. P (Suc k))"
  by (metis not0_implies_Suc)

lemma rep_digit_eol:
  "re_match_at [Rep m n Digit, Eol] i s \<longleftrightarrow>
     (\<exists>k. m \<le> k \<and> k \<le> n \<and> k \<le> length s \<and> list_all isdecimal (take k s)
          \<and> (drop k s = [] \<or> drop k s = [10]))"
proof (induction s arbitrary: m n i)
  case Nil
  then show ?case by auto
next
  case (Cons x t)
  have "re_match_at [Rep m n Digit, Eol] i (x # t) \<longleftrightarrow>
          (0 < n \<and> isdecimal x \<and> re_match_at [Rep (m - 1) (n - 1) Digit, Eol] (Suc i) t)
          \<or> (m = 0 \<and> x # t = [10])"
    by simp
  also have "\<dots> \<longleftrightarrow>
          (\<exists>k. m \<le> Suc k \<and> Suc k \<le> n \<and> k \<le> length t \<and> isdecimal x
                \<and> list_all isdecimal (take k t) \<and> (drop k t = [] \<or> drop k t = [10]))
          \<or> (m = 0 \<and> x # t = [10])"
  proof -
    have "(0 < n \<and> m - 1 \<le> k \<and> k \<le> n - 1) \<longleftrightarrow> (m \<le> Suc k \<and> Suc k \<le> n)" for k
      by arith
    then show ?thesis
      unfolding Cons.IH by blast
  qed
  also have "\<dots> \<longleftrightarrow>
          (\<exists>k. m \<le> k \<and> k \<le> n \<and> k \<le> length (x # t) \<and> list_all isdecimal (take k (x # t))
               \<and> (drop k (x # t) = [] \<or> drop k (x # t) = [10]))"
    by (subst (2) ex_nat_split) auto
  finally show ?case .
qed

lemma py_strip_last: "py_strip s \<noteq> [] \<Longrightarrow> \<not> isspace (last (py_strip s))"
  unfolding py_strip_def by (simp add: last_rev hd_dropWhile)

lemma py_strip_idem: "py_strip (py_strip s) = py_strip s"
proof -
  define t where "t = dropWhile isspace s"
  define u where "u = dropWhile isspace (rev t)"
  have tu: "rev t = takeWhile isspace (rev t) @ u"
    by (simp add: u_def)
  have "dropWhile isspace (rev u) = rev u"
  proof (cases "u = []")
    case True
    then show ?thesis by simp
  next
    case False
    from tu have "t = rev u @ rev (takeWhile isspace (rev t))"
      by (metis rev_append rev_rev_ident)
    with False have "hd (rev u) = hd t" "t \<noteq> []"
      by (metis hd_append rev_is_Nil_conv, metis Nil_is_append_conv rev_is_Nil_conv)
    then have "\<not> isspace (hd (rev u))"
      using hd_dropWhile[of isspace s] by (simp add: t_def)
    with False show ?thesis
      by (cases "rev u") auto
  qed
  moreover have "dropWhile isspace u = u"
    by (simp add: u_def)
  ultimately show ?thesis
    by (simp add: py_strip_def t_def[symmetric] u_def[symmetric])
qed

lemma digits_to_end:
  assumes "s \<noteq> [] \<longrightarrow> last s \<noteq> 10"
  shows "(\<exists>k. m \<le> k \<and> k \<le> n \<and> k \<le> length s \<and> list_all isdecimal (take k s)
              \<and> (drop k s = [] \<or> drop k s = [10]))
         \<longleftrightarrow> (m \<le> length s \<and> length s \<le> n \<and> list_all isdecimal s)"
proof
  assume "\<exists>k. m \<le> k \<and> k \<le> n \<and> k \<le> length s \<and> list_all isdecimal (take k s)
              \<and> (drop k s = [] \<or> drop k s = [10])"
  then obtain k where k: "m \<le> k" "k \<le> n" "k \<le> length s" "list_all isdecimal (take k s)"
      "drop k s = [] \<or> drop k s = [10]"
    by blast
  have "drop k s \<noteq> [10]"
  proof
    assume d: "drop k s = [10]"
    then have "k < length s"
      by (metis drop_all list.distinct(1) not_le_imp_less)
    then have "last (drop k s) = last s"
      by (rule last_drop)
    with d assms show False
      by auto
  qed
  with k have "k = length s"
    by simp
  with k show "m \<le> length s \<and> length s \<le> n \<and> list_all isdecimal s"
    by simp
next
  assume "m \<le> length s \<and> length s \<le> n \<and> list_all isdecimal s"
  then show "\<exists>k. m \<le> k \<and> k \<le> n \<and> k \<le> length s \<and> list_all isdecimal (take k s)
              \<and> (drop k s = [] \<or> drop k s = [10])"
    by (intro exI[of _ "length s"]) simp
qed

lemma rep_digit_to_end:
  assumes "s \<noteq> [] \<longrightarrow> last s \<noteq> 10"
  shows "re_match_at [Rep m n Digit, Eol] i s
         \<longleftrightarrow> (m \<le> length s \<and> length s \<le> n \<and> list_all isdecimal s)"
  unfolding rep_digit_eol using assms by (rule digits_to_end)

lemma phone_regex_iff:
  assumes "t \<noteq> [] \<longrightarrow> last t \<noteq> 10"
  shows "re_match PHONE_REGEX t \<longleftrightarrow> phone_shape isdecimal t"
proof (cases t)
  case Nil
  then show ?thesis
    by (simp add: re_match_def PHONE_REGEX_def phone_shape_def)
next
  case (Cons x u)
  with assms have u: "u \<noteq> [] \<longrightarrow> last u \<noteq> 10" and t: "x # u \<noteq> [] \<longrightarrow> last (x # u) \<noteq> 10"
    by auto
  have "re_match PHONE_REGEX t \<longleftrightarrow>
          (x = 43 \<and> re_match_at [Rep 7 15 Digit, Eol] (Suc 0) u)
          \<or> re_match_at [Rep 7 15 Digit, Eol] 0 (x # u)"
    by (simp add: re_match_def PHONE_REGEX_def Cons del: re_match_at.simps(7))
  also have "\<dots> \<longleftrightarrow>
          (x = 43 \<and> 7 \<le> length u \<and> length u \<le> 15 \<and> list_all isdecimal u)
          \<or> (7 \<le> length (x # u) \<and> length (x # u) \<le> 15 \<and> list_all isdecimal (x # u))"
    by (simp only: rep_digit_to_end[OF u] rep_digit_to_end[OF t])
  also have "\<dots> \<longleftrightarrow> phone_shape isdecimal t"
    using not_dec_43 by (auto simp add: phone_shape_def Cons)
  finally show ?thesis .
qed

lemma validate_phone_iff: "validate_phone (PStr s) \<longleftrightarrow> phone_shape isdecimal (py_strip s)"
proof -
  have "py_strip s \<noteq> [] \<longrightarrow> last (py_strip s) \<noteq> 10"
    using py_strip_last[of s] isspace_10 by auto
  then show ?thesis
    by (simp add: validate_phone_def phone_regex_iff)
qed

lemma validate_phone_strip: "validate_phone (PStr (py_strip s)) = validate_phone (PStr s)"
  by (simp add: validate_phone_def py_strip_idem)

lemma validate_phone_str: "validate_phone v \<Longrightarrow> \<exists>s. v = PStr s"
  by (cases v) (simp_all add: validate_phone_def)

lemma ascii_decimal: "c < 128 \<Longrightarrow> isdecimal c \<longleftrightarrow> is_ascii_digit c"
  by (auto simp add: isdecimal_def nd_blocks_def is_ascii_digit_def)

text \<open>An \<^verbatim>\<open>int\<close> below \<open>2 ^ 53\<close> in magnitude converts exactly.\<close>

lemma bit_length_le: "m < 2 ^ k \<Longrightarrow> bit_length m \<le> k"
proof (induction k arbitrary: m)
  case 0
  then show ?case
    by (simp add: bit_length.simps)
next
  case (Suc k)
  from Suc.prems have "m div 2 < 2 ^ k"
    by simp
  then have "bit_length (m div 2) \<le> k"
    by (rule Suc.IH)
  then show ?case
    by (subst bit_length.simps) simp
qed

lemma int_to_float_small:
  assumes "\<bar>n\<bar> < 2 ^ 53"
  shows "int_to_float n = Inr (Finite (of_int n))"
proof -
  have "bit_length \<bar>n\<bar> - 53 = 0"
    using bit_length_le[OF assms] by simp
  moreover have "\<not> (2 :: int) ^ 1024 \<le> \<bar>n\<bar>"
    using assms by (simp add: not_le order_less_trans[where y = "2 ^ 53"])
  ultimately show ?thesis
    by (simp add: int_to_float_def Let_def)
qed

lemma fle_between:
  "fle (Finite a) x \<and> fle x (Finite b) \<longleftrightarrow> (\<exists>q. x = Finite q \<and> a \<le> q \<and> q \<le> b)"
  by (cases x) auto

lemma in_range_fle:
  "lat_in_range x \<longleftrightarrow> fle (Finite (- 90)) x \<and> fle x (Finite 90)"
  "lon_in_range y \<longleftrightarrow> fle (Finite (- 180)) y \<and> fle y (Finite 180)"
  by (cases x; simp add: lat_in_range_def) (cases y; simp add: lon_in_range_def)

lemma validate_lat_lon_True:
  "validate_lat_lon sf lat lon = Inr True \<longleftrightarrow>
     (\<exists>la lo. py_float sf lat = Inr la \<and> py_float sf lon = Inr lo
              \<and> lat_in_range la \<and> lon_in_range lo)"
  by (auto simp add: validate_lat_lon_def in_range_fle split: sum.splits)

lemma upsert_doc_phones:
  "set (map phone (upsert_doc k l t ds)) = insert k (set (map phone ds))"
  by (induction ds) auto

lemma upsert_doc_distinct:
  "distinct (map phone ds) \<Longrightarrow> distinct (map phone (upsert_doc k l t ds))"
proof (induction ds)
  case Nil
  then show ?case by simp
next
  case (Cons d ds)
  have "phone d \<noteq> k \<Longrightarrow> phone d \<notin> set (map phone (upsert_doc k l t ds))"
    using Cons.prems unfolding upsert_doc_phones by auto
  with Cons show ?case
    by auto
qed

lemma upsert_doc_find:
  "find (\<lambda>d. phone d = k) (upsert_doc k l t ds) = Some \<lparr>phone = k, location = l, updated_at = t\<rparr>"
  by (induction ds) auto

lemma upsert_doc_filter_same:
  "distinct (map phone ds) \<Longrightarrow>
     filter (\<lambda>d. phone d = k) (upsert_doc k l t ds) = [\<lparr>phone = k, location = l, updated_at = t\<rparr>]"
proof (induction ds)
  case Nil
  then show ?case by simp
next
  case (Cons d ds)
  show ?case
  proof (cases "phone d = k")
    case True
    with Cons.prems have "\<forall>e \<in> set ds. phone e \<noteq> k"
      by (auto simp add: image_iff)
    then have "filter (\<lambda>d. phone d = k) ds = []"
      by (simp add: filter_empty_conv)
    with True show ?thesis
      by simp
  next
    case False
    with Cons show ?thesis
      by simp
  qed
qed

lemma upsert_doc_filter_other:
  "k' \<noteq> k \<Longrightarrow> filter (\<lambda>d. phone d = k') (upsert_doc k l t ds) = filter (\<lambda>d. phone d = k') ds"
  by (induction ds) auto

lemma next_outcome_docs: "docs (snd (next_outcome c)) = docs c"
  by (simp add: next_outcome_def split: list.splits)

lemma update_one_result:
  "update_one k l t c =
     (case fst (next_outcome c) of
        Some msg \<Rightarrow> (Inl msg, snd (next_outcome c))
      | None \<Rightarrow>
          (Inr (), (snd (next_outcome c))\<lparr>docs := upsert_doc k l (bson_date t) (docs c)\<rparr>))"
proof (cases "next_outcome c")
  case (Pair out c')
  then have "docs c' = docs c"
    using next_outcome_docs[of c] by simp
  with Pair show ?thesis
    by (simp add: update_one_def split: option.splits)
qed

text \<open>The POST handler on a body that passes every check.\<close>

lemma update_location_valid:
  assumes "is_json req" and "get_json req = Some (PDict kv)"
    and "dict_get kv (ustr ''phone'') = PStr s" and "validate_phone (PStr s)"
    and "py_float sf (dict_get kv (ustr ''latitude'')) = Inr la"
    and "py_float sf (dict_get kv (ustr ''longitude'')) = Inr lo"
    and "lat_in_range la" and "lon_in_range lo"
  shows "update_location sf now req c =
     (case fst (next_outcome c) of
        Some msg \<Rightarrow>
          (Inr (PDict [(ustr ''error'', PStr (ustr ''Database error'')),
                       (ustr ''details'', PStr msg)], 500),
           snd (next_outcome c))
      | None \<Rightarrow>
          (Inr (PDict [(ustr ''message'', PStr (ustr ''Location stored'')),
                       (ustr ''phone'', PStr (py_strip s)),
                       (ustr ''location'',
                          PDict [(ustr ''latitude'', PFloat la),
                                 (ustr ''longitude'', PFloat lo)]),
                       (ustr ''updated_at'', PStr (isoformat now @ ustr ''Z''))], 200),
           (snd (next_outcome c))\<lparr>docs :=
              upsert_doc (py_strip s) \<lparr>latitude = la, longitude = lo\<rparr> (bson_date now)
                (docs c)\<rparr>))"
proof -
  have v: "validate_lat_lon sf (dict_get kv (ustr ''latitude'')) (dict_get kv (ustr ''longitude''))
           = Inr True"
    using assms by (auto simp add: validate_lat_lon_True)
  have n: "dict_get kv (ustr ''latitude'') \<noteq> PNone" "dict_get kv (ustr ''longitude'') \<noteq> PNone"
    using assms(5,6) by auto
  show ?thesis
    using assms(1-6) n
    by (simp add: update_location_def v update_one_result Let_def split: option.splits)
qed

lemma update_location_stored:
  assumes "stored (fst (update_location sf now req c))"
  shows "\<exists>kv s la lo.
           is_json req \<and> get_json req = Some (PDict kv)
           \<and> dict_get kv (ustr ''phone'') = PStr s \<and> validate_phone (PStr s)
           \<and> py_float sf (dict_get kv (ustr ''latitude'')) = Inr la
           \<and> py_float sf (dict_get kv (ustr ''longitude'')) = Inr lo
           \<and> lat_in_range la \<and> lon_in_range lo \<and> fst (next_outcome c) = None"
  using assms
  by (auto simp add: update_location_def stored_def Let_def update_one_result
        validate_lat_lon_True
      split: if_splits option.splits pyval.splits sum.splits bool.splits)

lemma update_location_not_stored:
  assumes "\<not> stored (fst (update_location sf now req c))"
  shows "docs (snd (update_location sf now req c)) = docs c"
  using assms
  by (auto simp add: update_location_def stored_def Let_def update_one_result
        next_outcome_docs
      split: if_splits option.splits pyval.splits sum.splits bool.splits)

lemma update_location_step:
  assumes "stored (fst (update_location sf now req c))"
  shows "\<exists>d. prepared_doc sf now req = Some d \<and> updated_at d = now
             \<and> docs (snd (update_location sf now req c))
                 = upsert_doc (phone d) (location d) (bson_date (updated_at d)) (docs c)"
proof -
  from update_location_stored[OF assms] obtain kv s la lo where h:
    "is_json req" "get_json req = Some (PDict kv)"
    "dict_get kv (ustr ''phone'') = PStr s" "validate_phone (PStr s)"
    "py_float sf (dict_get kv (ustr ''latitude'')) = Inr la"
    "py_float sf (dict_get kv (ustr ''longitude'')) = Inr lo"
    "lat_in_range la" "lon_in_range lo" "fst (next_outcome c) = None"
    by blast
  have "prepared_doc sf now req =
          Some \<lparr>phone = py_strip s, location = \<lparr>latitude = la, longitude = lo\<rparr>,
                updated_at = now\<rparr>"
    using h by (simp add: prepared_doc_def)
  moreover have "docs (snd (update_location sf now req c))
          = upsert_doc (py_strip s) \<lparr>latitude = la, longitude = lo\<rparr> (bson_date now) (docs c)"
    using h(9) by (simp add: update_location_valid[OF h(1-8)])
  ultimately show ?thesis
    by simp
qed

lemma update_location_unique:
  assumes "unique_phone c"
  shows "unique_phone (snd (update_location sf now req c))"
proof (cases "stored (fst (update_location sf now req c))")
  case True
  from update_location_step[OF True] assms show ?thesis
    by (auto simp add: unique_phone_def upsert_doc_distinct)
next
  case False
  from update_location_not_stored[OF False] assms show ?thesis
    by (simp add: unique_phone_def)
qed

lemma posts_unique: "unique_phone c \<Longrightarrow> unique_phone (posts sf c rs)"
  by (induction rs arbitrary: c) (auto simp add: update_location_unique)

lemma posts_filter:
  "unique_phone c \<Longrightarrow>
     filter (\<lambda>d. phone d = k) (docs (posts sf c rs)) =
       (if writes sf k c rs = [] then filter (\<lambda>d. phone d = k) (docs c)
        else [as_stored (last (writes sf k c rs))])"
proof (induction rs arbitrary: c)
  case Nil
  then show ?case by simp
next
  case (Cons r rs)
  obtain now req where r: "r = (now, req)"
    by (cases r)
  define c' where "c' = snd (update_location sf now req c)"
  have u: "unique_phone c'"
    using Cons.prems by (simp add: c'_def update_location_unique)
  note IH = Cons.IH[OF u]
  have first: "filter (\<lambda>d. phone d = k) (docs c') =
      (if stored (fst (update_location sf now req c))
       then (case prepared_doc sf now req of
               None \<Rightarrow> filter (\<lambda>d. phone d = k) (docs c)
             | Some d \<Rightarrow>
                 if phone d = k then [as_stored d] else filter (\<lambda>d. phone d = k) (docs c))
       else filter (\<lambda>d. phone d = k) (docs c))"
  proof (cases "stored (fst (update_location sf now req c))")
    case True
    from update_location_step[OF True] obtain d where d:
      "prepared_doc sf now req = Some d"
      "docs c' = upsert_doc (phone d) (location d) (bson_date (updated_at d)) (docs c)"
      unfolding c'_def by blast
    have "as_stored d =
            \<lparr>phone = phone d, location = location d, updated_at = bson_date (updated_at d)\<rparr>"
      by (cases d) (simp add: as_stored_def)
    then show ?thesis
      using True d Cons.prems
      by (simp add: unique_phone_def upsert_doc_filter_same upsert_doc_filter_other)
  next
    case False
    from update_location_not_stored[OF False] False show ?thesis
      by (simp add: c'_def)
  qed
  show ?case
    using IH first
    by (simp add: r c'_def[symmetric] split: option.splits)
qed

lemma writes_times:
  "w \<in> set (writes sf k c rs) \<Longrightarrow> updated_at w \<in> fst ` set rs"
proof (induction rs arbitrary: c)
  case Nil
  then show ?case by simp
next
  case (Cons r rs)
  obtain now req where r: "r = (now, req)"
    by (cases r)
  have "w \<in> set (writes sf k c ((now, req) # rs))"
    using Cons.prems unfolding r .
  then have "(stored (fst (update_location sf now req c)) \<and> prepared_doc sf now req = Some w)
      \<or> w \<in> set (writes sf k (snd (update_location sf now req c)) rs)"
    by (cases "stored (fst (update_location sf now req c))";
        cases "prepared_doc sf now req"; cases "phone (the (prepared_doc sf now req)) = k") auto
  then show ?case
  proof
    assume head: "stored (fst (update_location sf now req c)) \<and> prepared_doc sf now req = Some w"
    with update_location_step[of sf now req c] show ?thesis
      by (auto simp add: r)
  next
    assume "w \<in> set (writes sf k (snd (update_location sf now req c)) rs)"
    from Cons.IH[OF this] show ?thesis
      by auto
  qed
qed

lemma writes_sorted:
  "sorted (map (\<lambda>r. dt_key (fst r)) rs) \<Longrightarrow>
     sorted (map (\<lambda>w. dt_key (updated_at w)) (writes sf k c rs))"
proof (induction rs arbitrary: c)
  case Nil
  then show ?case by simp
next
  case (Cons r rs)
  obtain now req where r: "r = (now, req)"
    by (cases r)
  define c' where "c' = snd (update_location sf now req c)"
  have later: "dt_key now \<le> dt_key (updated_at w)" if "w \<in> set (writes sf k c' rs)" for w
    using writes_times[OF that] Cons.prems by (auto simp add: r)
  have tl: "sorted (map (\<lambda>w. dt_key (updated_at w)) (writes sf k c' rs))"
    using Cons by simp
  show ?case
  proof (cases "stored (fst (update_location sf now req c))")
    case True
    from update_location_step[OF True] obtain d where d:
      "prepared_doc sf now req = Some d" "updated_at d = now"
      by blast
    show ?thesis
      using True d tl later by (auto simp add: r c'_def[symmetric])
  next
    case False
    then show ?thesis
      using tl by (simp add: r c'_def[symmetric])
  qed
qed

lemma sorted_le_last: "sorted xs \<Longrightarrow> x \<in> set xs \<Longrightarrow> x \<le> last xs"
  by (induction xs) auto

lemmas eval_simps = validate_phone_def re_match_def PHONE_REGEX_def py_strip_def isspace_def
  isdecimal_def nd_blocks_def ustr_def validate_lat_lon_def update_location_def
  get_latest_location_def update_one_def find_one_def next_outcome_def dict_get_def
  post_body_def empty_collection_def sample_float_def stored_def next_ok_def Let_def
  prepared_doc_def unique_phone_def dt_key_def t0_def t1_def lat_in_range_def lon_in_range_def
  bson_date_def as_stored_def

lemma next_ok_outcome: "next_ok c \<longleftrightarrow> fst (next_outcome c) = None"
  by (simp add: next_ok_def next_outcome_def split: list.splits)

lemma find_one_ok:
  "fst (next_outcome c) = None \<Longrightarrow> fst (find_one k c) = Inr (find (\<lambda>d. phone d = k) (docs c))"
  using next_outcome_docs[of c]
  by (cases "next_outcome c") (simp add: find_one_def)

lemma get_latest_location_ok:
  assumes "validate_phone (PStr q)" and "fst (next_outcome c) = None"
  shows "fst (get_latest_location q c) =
     (case find (\<lambda>d. phone d = q) (docs c) of
        None \<Rightarrow>
          (PDict [(ustr ''error'', PStr (ustr ''No location found for this phone number''))], 404)
      | Some d \<Rightarrow>
          (PDict [(ustr ''phone'', PStr (phone d)),
                  (ustr ''location'',
                     PDict [(ustr ''latitude'', PFloat (latitude (location d))),
                            (ustr ''longitude'', PFloat (longitude (location d)))]),
                  (ustr ''updated_at'', PStr (isoformat (updated_at d) @ ustr ''Z''))], 200))"
proof (cases "find_one q c")
  case (Pair r c')
  with find_one_ok[OF assms(2), of q] have "r = Inr (find (\<lambda>d. phone d = q) (docs c))"
    by simp
  with Pair assms(1) show ?thesis
    by (simp add: get_latest_location_def split: option.splits)
qed

lemma py_strip_subset: "set (py_strip s) \<subseteq> set s"
proof -
  have "set (dropWhile isspace (rev (dropWhile isspace s))) \<subseteq> set (rev (dropWhile isspace s))"
    by (rule set_dropWhileD[THEN subsetI])
  also have "\<dots> \<subseteq> set s"
    by (auto dest: set_dropWhileD)
  finally show ?thesis
    by (simp add: py_strip_def)
qed

lemma phone_shape_cong:
  assumes "\<And>c. c \<in> set s \<Longrightarrow> dig c = dig' c"
  shows "phone_shape dig s = phone_shape dig' s"
proof (cases s)
  case Nil
  then show ?thesis
    by (simp add: phone_shape_def)
next
  case (Cons x t)
  with assms have "list_all dig t = list_all dig' t" "list_all dig s = list_all dig' s"
    by (auto simp add: list_all_iff)
  with Cons show ?thesis
    by (simp add: phone_shape_def)
qed

text \<open>On strings of ASCII characters the validator is the one the specification words.\<close>

lemma validate_phone_ascii:
  assumes "\<forall>c \<in> set s. c < 128"
  shows "validate_phone (PStr s) = spec_validate_phone (PStr s)"
proof -
  have "isdecimal c = is_ascii_digit c" if "c \<in> set (py_strip s)" for c
    using that py_strip_subset[of s] assms by (auto simp add: ascii_decimal)
  then have "phone_shape isdecimal (py_strip s) = phone_shape is_ascii_digit (py_strip s)"
    by (rule phone_shape_cong)
  then show ?thesis
    by (simp add: validate_phone_iff spec_validate_phone_def)
qed

text \<open>The conversion of an \<^verbatim>\<open>int\<close> of 1025 bits raises, and the validator with it.\<close>

lemma bit_length_pow2: "bit_length (2 ^ k) = Suc k"
proof (induction k)
  case 0
  show ?case
    by (simp add: bit_length.simps)
next
  case (Suc k)
  then show ?case
    by (subst bit_length.simps) simp
qed

lemma int_to_float_overflow: "int_to_float (2 ^ 1024) = Inl OverflowError"
proof -
  have "bit_length \<bar>2 ^ 1024\<bar> = 1025"
    using bit_length_pow2[of 1024] by simp
  then show ?thesis
    by (simp add: int_to_float_def Let_def)
qed

lemma validate_lat_lon_overflow:
  "validate_lat_lon sf (PInt (2 ^ 1024)) lon = Inl OverflowError"
  unfolding validate_lat_lon_def py_float.simps int_to_float_overflow by simp

lemma posts_phones:
  "k \<in> phone ` set (docs (posts sf c rs)) \<Longrightarrow>
     k \<in> phone ` set (docs c) \<or> writes sf k c rs \<noteq> []"
proof (induction rs arbitrary: c)
  case Nil
  then show ?case by simp
next
  case (Cons r rs)
  obtain now req where r: "r = (now, req)"
    by (cases r)
  define c' where "c' = snd (update_location sf now req c)"
  have p: "posts sf c (r # rs) = posts sf c' rs"
    by (simp add: r c'_def)
  from Cons.prems have "k \<in> phone ` set (docs c') \<or> writes sf k c' rs \<noteq> []"
    unfolding p by (rule Cons.IH)
  then show ?case
  proof
    assume k: "k \<in> phone ` set (docs c')"
    show ?thesis
    proof (cases "stored (fst (update_location sf now req c))")
      case True
      from update_location_step[OF True] obtain d where d:
        "prepared_doc sf now req = Some d"
        "docs c' = upsert_doc (phone d) (location d) (bson_date (updated_at d)) (docs c)"
        unfolding c'_def by blast
      from k have "k \<in> set (map phone (docs c'))"
        by simp
      then have "k = phone d \<or> k \<in> phone ` set (docs c)"
        unfolding d(2) upsert_doc_phones by auto
      with True d(1) show ?thesis
        by (auto simp add: r)
    next
      case False
      from update_location_not_stored[OF False] k show ?thesis
        by (simp add: c'_def)
    qed
  next
    assume "writes sf k c' rs \<noteq> []"
    then show ?thesis
      by (simp add: r c'_def)
  qed
qed

lemma next_outcome_fault:
  "pending c = Some msg # rest \<Longrightarrow> next_outcome c = (Some msg, c\<lparr>pending := rest\<rparr>)"
  by (simp add: next_outcome_def)

text \<open>
  The three client errors of the POST handler on a JSON object, in the order of the
  source; none of them touches the collection.
\<close>

lemma update_location_client_errors:
  assumes "is_json req" and "get_json req = Some (PDict kv)"
    and "ph = dict_get kv (ustr ''phone'')"
    and "lat = dict_get kv (ustr ''latitude'')"
    and "lon = dict_get kv (ustr ''longitude'')"
  shows "(ph = PNone \<or> lat = PNone \<or> lon = PNone \<longrightarrow>
            update_location sf now req c =
              (Inr (PDict [(ustr ''error'',
                      PStr (ustr ''Missing required fields: phone, latitude, longitude''))],
                    400), c))
     \<and> (ph \<noteq> PNone \<and> lat \<noteq> PNone \<and> lon \<noteq> PNone \<and> \<not> validate_phone ph \<longrightarrow>
            update_location sf now req c =
              (Inr (PDict [(ustr ''error'',
                      PStr (ustr (''Invalid phone format. Use digits with optional ''
                                  @ ''leading '' @ [CHR 0x27] @ ''+'' @ [CHR 0x27]
                                  @ '', 7-15 digits.'')))],
                    400), c))
     \<and> (ph \<noteq> PNone \<and> lat \<noteq> PNone \<and> lon \<noteq> PNone \<and> validate_phone ph
          \<and> validate_lat_lon sf lat lon = Inr False \<longrightarrow>
            update_location sf now req c =
              (Inr (PDict [(ustr ''error'',
                      PStr (ustr ''Invalid latitude/longitude range or format.''))],
                    400), c))"
  using assms by (simp add: update_location_def Let_def)

text \<open>Dropping the microseconds below a millisecond keeps the order of two dates.\<close>

lemma bson_date_mono:
  assumes "dt_key a \<le> dt_key b"
  shows "dt_key (bson_date a) \<le> dt_key (bson_date b)"
proof -
  have "microsecond a div 1000 * 1000 \<le> microsecond b div 1000 * 1000"
    if "microsecond a \<le> microsecond b"
    using that by (simp add: div_le_mono)
  with assms show ?thesis
    by (auto simp add: dt_key_def bson_date_def)
qed

text \<open>
  What \<open>validate_lat_lon\<close> does on every pair of inputs. The conversion raises one of
  three exceptions, \<^verbatim>\<open>OverflowError\<close> only on an \<^verbatim>\<open>int\<close> of at least \<open>2 ^ 53\<close> in
  magnitude. When neither conversion raises \<^verbatim>\<open>OverflowError\<close> the function returns the
  value the specification words; it raises exactly when the latitude overflows, or the
  latitude converts and the longitude overflows.
\<close>

lemma py_float_exn:
  "py_float sf v = Inl e \<Longrightarrow> e = TypeError \<or> e = ValueError \<or> e = OverflowError"
  by (cases v) (auto simp add: int_to_float_def Let_def split: option.splits if_splits)

lemma py_float_overflow_int:
  assumes "py_float sf v = Inl OverflowError"
  shows "\<exists>n. v = PInt n \<and> 2 ^ 53 \<le> \<bar>n\<bar>"
proof (cases v)
  case (PInt n)
  have "\<not> \<bar>n\<bar> < 2 ^ 53"
    using assms PInt int_to_float_small[of n] by auto
  with PInt show ?thesis
    by simp
qed (use assms in \<open>auto split: option.splits\<close>)

lemma validate_lat_lon_total:
  assumes "py_float sf lat \<noteq> Inl OverflowError" and "py_float sf lon \<noteq> Inl OverflowError"
  shows "validate_lat_lon sf lat lon = Inr (spec_validate_lat_lon sf lat lon)"
proof (cases "py_float sf lat")
  case (Inl e)
  with assms(1) py_float_exn[of sf lat e] have "e = TypeError \<or> e = ValueError"
    by auto
  with Inl show ?thesis
    by (auto simp add: validate_lat_lon_def spec_validate_lat_lon_def)
next
  case la: (Inr la)
  show ?thesis
  proof (cases "py_float sf lon")
    case (Inl e)
    with assms(2) py_float_exn[of sf lon e] have "e = TypeError \<or> e = ValueError"
      by auto
    with la Inl show ?thesis
      by (auto simp add: validate_lat_lon_def spec_validate_lat_lon_def)
  next
    case (Inr lo)
    with la show ?thesis
      by (simp add: validate_lat_lon_def spec_validate_lat_lon_def in_range_fle)
  qed
qed

lemma validate_lat_lon_raises_iff:
  "validate_lat_lon sf lat lon = Inl e \<longleftrightarrow>
     e = OverflowError
     \<and> (py_float sf lat = Inl OverflowError
        \<or> ((\<exists>la. py_float sf lat = Inr la) \<and> py_float sf lon = Inl OverflowError))"
proof (cases "py_float sf lat")
  case (Inl e1)
  with py_float_exn[of sf lat e1] show ?thesis
    by (auto simp add: validate_lat_lon_def)
next
  case la: (Inr la)
  show ?thesis
  proof (cases "py_float sf lon")
    case (Inl e2)
    with la py_float_exn[of sf lon e2] show ?thesis
      by (auto simp add: validate_lat_lon_def)
  next
    case (Inr lo)
    with la show ?thesis
      by (simp add: validate_lat_lon_def)
  qed
qed

section \<open>The claims\<close>

text \<open>
  C1 as stated fails: the GET handler looks the path parameter up as it was given,
  while the POST handler stored the trimmed string. With a leading blank the phone is
  accepted by \<open>validate_phone\<close>, the POST answers 200, and the GET of the same string
  answers 404.
\<close>

theorem roundtrip_same_string_counterexample:
  "validate_phone (PStr (ustr '' +15551234567''))
   \<and> validate_lat_lon sample_float (PFloat (Finite (75 / 2)))
        (PFloat (Finite (- 489 / 4))) = Inr True
   \<and> stored (fst (update_location sample_float t0
        (post_body (ustr '' +15551234567'') (PFloat (Finite (75 / 2)))
           (PFloat (Finite (- 489 / 4)))) empty_collection))
   \<and> fst (get_latest_location (ustr '' +15551234567'')
        (snd (update_location sample_float t0
          (post_body (ustr '' +15551234567'') (PFloat (Finite (75 / 2)))
             (PFloat (Finite (- 489 / 4)))) empty_collection)))
      = (PDict [(ustr ''error'', PStr (ustr ''No location found for this phone number''))], 404)"
  by (simp add: eval_simps)

text \<open>
  C1, as amended. For every phone string \<open>p\<close> accepted by \<open>validate_phone\<close> and every
  pair accepted by \<open>validate_lat_lon\<close>, a POST of \<open>(p, lat, lon)\<close> whose store operation
  is carried out answers 200, and a GET of the trimmed string \<open>p.strip()\<close> that follows
  it answers 200 with the record of that phone, whose location is exactly
  \<open>(float(lat), float(lon))\<close>: the lookup is an exact match on the trimmed phone string
  used at write time.
\<close>

theorem roundtrip_trimmed:
  assumes "validate_phone (PStr p)"
    and "validate_lat_lon sf lat lon = Inr True"
    and "is_json req" and "get_json req = Some (PDict kv)"
    and "dict_get kv (ustr ''phone'') = PStr p"
    and "dict_get kv (ustr ''latitude'') = lat"
    and "dict_get kv (ustr ''longitude'') = lon"
    and "next_ok c"
    and "next_ok (snd (update_location sf now req c))"
  shows "\<exists>la lo. py_float sf lat = Inr la \<and> py_float sf lon = Inr lo
           \<and> stored (fst (update_location sf now req c))
           \<and> snd (fst (get_latest_location (py_strip p) (snd (update_location sf now req c))))
               = 200
           \<and> body_get (fst (get_latest_location (py_strip p)
                              (snd (update_location sf now req c)))) (ustr ''phone'')
               = PStr (py_strip p)
           \<and> body_get (fst (get_latest_location (py_strip p)
                              (snd (update_location sf now req c)))) (ustr ''location'')
               = PDict [(ustr ''latitude'', PFloat la), (ustr ''longitude'', PFloat lo)]"
proof -
  from assms(2) obtain la lo where f:
    "py_float sf lat = Inr la" "py_float sf lon = Inr lo" "lat_in_range la" "lon_in_range lo"
    unfolding validate_lat_lon_True by blast
  define c1 where "c1 = snd (update_location sf now req c)"
  have ok: "fst (next_outcome c) = None"
    using assms(8) by (simp add: next_ok_outcome)
  have post: "update_location sf now req c =
      (Inr (PDict [(ustr ''message'', PStr (ustr ''Location stored'')),
                   (ustr ''phone'', PStr (py_strip p)),
                   (ustr ''location'',
                      PDict [(ustr ''latitude'', PFloat la),
                             (ustr ''longitude'', PFloat lo)]),
                   (ustr ''updated_at'', PStr (isoformat now @ ustr ''Z''))], 200),
       (snd (next_outcome c))\<lparr>docs :=
          upsert_doc (py_strip p) \<lparr>latitude = la, longitude = lo\<rparr> (bson_date now)
            (docs c)\<rparr>)"
    using update_location_valid[of req kv p sf la lo now c] assms f ok by simp
  then have st: "stored (fst (update_location sf now req c))"
    by (simp add: stored_def)
  have d: "docs c1 =
      upsert_doc (py_strip p) \<lparr>latitude = la, longitude = lo\<rparr> (bson_date now) (docs c)"
    by (simp add: c1_def post)
  have "fst (next_outcome c1) = None"
    using assms(9) by (simp add: next_ok_outcome c1_def)
  moreover have "validate_phone (PStr (py_strip p))"
    using assms(1) by (simp add: validate_phone_strip)
  ultimately have g: "fst (get_latest_location (py_strip p) c1) =
               (PDict [(ustr ''phone'', PStr (py_strip p)),
                       (ustr ''location'',
                          PDict [(ustr ''latitude'', PFloat la),
                                 (ustr ''longitude'', PFloat lo)]),
                       (ustr ''updated_at'', PStr (isoformat (bson_date now) @ ustr ''Z''))],
                200)"
    by (simp add: get_latest_location_ok d upsert_doc_find)
  have "snd (fst (get_latest_location (py_strip p) c1)) = 200"
    and "body_get (fst (get_latest_location (py_strip p) c1)) (ustr ''phone'')
           = PStr (py_strip p)"
    and "body_get (fst (get_latest_location (py_strip p) c1)) (ustr ''location'')
           = PDict [(ustr ''latitude'', PFloat la), (ustr ''longitude'', PFloat lo)]"
    unfolding g by (simp_all add: body_get_def dict_get_def)
  with f st show ?thesis
    unfolding c1_def by blast
qed

theorem roundtrip_trimmed_witness:
  "validate_phone (PStr (ustr '' +15551234567''))
   \<and> validate_lat_lon sample_float (PFloat (Finite (75 / 2)))
        (PFloat (Finite (- 489 / 4))) = Inr True
   \<and> next_ok empty_collection
   \<and> next_ok (snd (update_location sample_float t0
        (post_body (ustr '' +15551234567'') (PFloat (Finite (75 / 2)))
           (PFloat (Finite (- 489 / 4)))) empty_collection))
   \<and> body_get (fst (get_latest_location (py_strip (ustr '' +15551234567''))
        (snd (update_location sample_float t0
          (post_body (ustr '' +15551234567'') (PFloat (Finite (75 / 2)))
             (PFloat (Finite (- 489 / 4)))) empty_collection)))) (ustr ''location'')
      = PDict [(ustr ''latitude'', PFloat (Finite (75 / 2))),
               (ustr ''longitude'', PFloat (Finite (- 489 / 4)))]"
proof -
  have p: "validate_phone (PStr (ustr '' +15551234567''))"
    by (simp add: eval_simps)
  have v: "validate_lat_lon sample_float (PFloat (Finite (75 / 2)))
        (PFloat (Finite (- 489 / 4))) = Inr True"
    by (simp add: eval_simps)
  have n: "next_ok empty_collection"
    by (simp add: eval_simps)
  have n1: "next_ok (snd (update_location sample_float t0
        (post_body (ustr '' +15551234567'') (PFloat (Finite (75 / 2)))
           (PFloat (Finite (- 489 / 4)))) empty_collection))"
    by (simp add: eval_simps)
  from roundtrip_trimmed[OF p v _ _ _ _ _ n n1, of "[(ustr ''phone'', PStr (ustr '' +15551234567'')),
      (ustr ''latitude'', PFloat (Finite (75 / 2))),
      (ustr ''longitude'', PFloat (Finite (- 489 / 4)))]"]
  show ?thesis
    using p v n n1 by (simp add: post_body_def dict_get_def)
qed

text \<open>
  C2 as stated fails in its last part: \<open>updated_at\<close> is the reading of the wall clock at
  each call, and nothing in the handler orders the readings. When the clock is set
  back between two writes for one phone, the record after the second write has an
  earlier \<open>updated_at\<close> than it had after the first.
\<close>

theorem clock_set_back_counterexample:
  "stored (fst (update_location sample_float t1
        (post_body (ustr ''+15551234567'') (PFloat (Finite (75 / 2))) (PInt (- 122)))
        empty_collection))
   \<and> docs (posts sample_float empty_collection
        [(t1, post_body (ustr ''+15551234567'') (PFloat (Finite (75 / 2))) (PInt (- 122)))])
      = [\<lparr>phone = ustr ''+15551234567'',
          location = \<lparr>latitude = Finite (75 / 2), longitude = Finite (- 122)\<rparr>,
          updated_at = \<lparr>year = 2024, month = 1, day = 2, hour = 3, minute = 5, second = 0,
                          microsecond = 123000\<rparr>\<rparr>]
   \<and> stored (fst (update_location sample_float t0
        (post_body (ustr ''+15551234567'') (PInt 40) (PStr (ustr ''-120.5'')))
        (posts sample_float empty_collection
          [(t1, post_body (ustr ''+15551234567'') (PFloat (Finite (75 / 2))) (PInt (- 122)))])))
   \<and> docs (posts sample_float empty_collection
        [(t1, post_body (ustr ''+15551234567'') (PFloat (Finite (75 / 2))) (PInt (- 122))),
         (t0, post_body (ustr ''+15551234567'') (PInt 40) (PStr (ustr ''-120.5'')))])
      = [\<lparr>phone = ustr ''+15551234567'',
          location = \<lparr>latitude = Finite 40, longitude = Finite (- 241 / 2)\<rparr>,
          updated_at = \<lparr>year = 2024, month = 1, day = 2, hour = 3, minute = 4, second = 5,
                          microsecond = 0\<rparr>\<rparr>]
   \<and> \<not> dt_key \<lparr>year = 2024, month = 1, day = 2, hour = 3, minute = 5, second = 0,
                 microsecond = 123000\<rparr>
        \<le> dt_key \<lparr>year = 2024, month = 1, day = 2, hour = 3, minute = 4, second = 5,
                   microsecond = 0\<rparr>"
  by (simp add: eval_simps int_to_float_small)

text \<open>
  C2, as amended. Key uniqueness and last write wins: in a collection that satisfies
  the unique index, after any run of POST requests in which at least one call stored a
  document for the key \<open>k\<close>, the index still holds, exactly one document has the key
  \<open>k\<close>, and it is the document of the most recent such call, as the collection keeps
  it: its coordinates, and its clock reading to the millisecond. Provided the clock
  readings of the calls do not decrease, its \<open>updated_at\<close> is later than or equal to the
  \<open>updated_at\<close> kept at every earlier write for \<open>k\<close>.
\<close>

theorem last_write_wins:
  assumes "unique_phone c" and "writes sf k c rs \<noteq> []"
  shows "unique_phone (posts sf c rs)
     \<and> filter (\<lambda>d. phone d = k) (docs (posts sf c rs)) = [as_stored (last (writes sf k c rs))]
     \<and> location (as_stored (last (writes sf k c rs))) = location (last (writes sf k c rs))
     \<and> (sorted (map (\<lambda>r. dt_key (fst r)) rs) \<longrightarrow>
          (\<forall>w \<in> set (writes sf k c rs).
             dt_key (updated_at (as_stored w))
               \<le> dt_key (updated_at (as_stored (last (writes sf k c rs))))))"
proof (intro conjI impI ballI)
  show "unique_phone (posts sf c rs)"
    using assms(1) by (rule posts_unique)
  show "filter (\<lambda>d. phone d = k) (docs (posts sf c rs)) = [as_stored (last (writes sf k c rs))]"
    using assms by (simp add: posts_filter)
  show "location (as_stored (last (writes sf k c rs))) = location (last (writes sf k c rs))"
    by (simp add: as_stored_def)
next
  fix w
  assume s: "sorted (map (\<lambda>r. dt_key (fst r)) rs)" and w: "w \<in> set (writes sf k c rs)"
  let ?ks = "map (\<lambda>w. dt_key (updated_at w)) (writes sf k c rs)"
  have "sorted ?ks"
    using s by (rule writes_sorted)
  moreover have "dt_key (updated_at w) \<in> set ?ks"
    using w by simp
  ultimately have "dt_key (updated_at w) \<le> last ?ks"
    by (rule sorted_le_last)
  then have "dt_key (updated_at w) \<le> dt_key (updated_at (last (writes sf k c rs)))"
    using assms(2) by (simp add: last_map)
  then have "dt_key (bson_date (updated_at w))
      \<le> dt_key (bson_date (updated_at (last (writes sf k c rs))))"
    by (rule bson_date_mono)
  then show "dt_key (updated_at (as_stored w))
      \<le> dt_key (updated_at (as_stored (last (writes sf k c rs))))"
    by (simp add: as_stored_def)
qed

theorem last_write_wins_witness:
  "unique_phone empty_collection
   \<and> writes sample_float (ustr ''+15551234567'') empty_collection
        [(t0, post_body (ustr ''+15551234567'') (PFloat (Finite (75 / 2))) (PInt (- 122))),
         (t1, post_body (ustr ''+15551234567 '') (PInt 40) (PStr (ustr ''-120.5'')))] \<noteq> []
   \<and> sorted (map (\<lambda>r. dt_key (fst r))
        [(t0, post_body (ustr ''+15551234567'') (PFloat (Finite (75 / 2))) (PInt (- 122))),
         (t1, post_body (ustr ''+15551234567 '') (PInt 40) (PStr (ustr ''-120.5'')))])
   \<and> filter (\<lambda>d. phone d = ustr ''+15551234567'')
        (docs (posts sample_float empty_collection
          [(t0, post_body (ustr ''+15551234567'') (PFloat (Finite (75 / 2))) (PInt (- 122))),
           (t1, post_body (ustr ''+15551234567 '') (PInt 40) (PStr (ustr ''-120.5'')))]))
      = [\<lparr>phone = ustr ''+15551234567'',
          location = \<lparr>latitude = Finite 40, longitude = Finite (- 241 / 2)\<rparr>,
          updated_at = \<lparr>year = 2024, month = 1, day = 2, hour = 3, minute = 5, second = 0,
                          microsecond = 123000\<rparr>\<rparr>]"
proof -
  let ?rs = "[(t0, post_body (ustr ''+15551234567'') (PFloat (Finite (75 / 2))) (PInt (- 122))),
              (t1, post_body (ustr ''+15551234567 '') (PInt 40) (PStr (ustr ''-120.5'')))]"
  have w: "writes sample_float (ustr ''+15551234567'') empty_collection ?rs =
      [\<lparr>phone = ustr ''+15551234567'',
        location = \<lparr>latitude = Finite (75 / 2), longitude = Finite (- 122)\<rparr>,
        updated_at = t0\<rparr>,
       \<lparr>phone = ustr ''+15551234567'',
        location = \<lparr>latitude = Finite 40, longitude = Finite (- 241 / 2)\<rparr>,
        updated_at = t1\<rparr>]"
    by (simp add: eval_simps int_to_float_small)
  have u: "unique_phone empty_collection"
    by (simp add: eval_simps)
  have s: "sorted (map (\<lambda>r. dt_key (fst r)) ?rs)"
    by (simp add: eval_simps)
  have n: "writes sample_float (ustr ''+15551234567'') empty_collection ?rs \<noteq> []"
    unfolding w by simp
  from last_write_wins[OF u n]
  have "filter (\<lambda>d. phone d = ustr ''+15551234567'')
          (docs (posts sample_float empty_collection ?rs))
        = [as_stored (last (writes sample_float (ustr ''+15551234567'') empty_collection ?rs))]"
    by (rule conjunct1[OF conjunct2])
  then have "filter (\<lambda>d. phone d = ustr ''+15551234567'')
          (docs (posts sample_float empty_collection ?rs))
        = [\<lparr>phone = ustr ''+15551234567'',
            location = \<lparr>latitude = Finite 40, longitude = Finite (- 241 / 2)\<rparr>,
            updated_at = \<lparr>year = 2024, month = 1, day = 2, hour = 3, minute = 5, second = 0,
                            microsecond = 123000\<rparr>\<rparr>]"
    unfolding w by (simp add: as_stored_def bson_date_def t1_def)
  with u n s show ?thesis
    by (intro conjI)
qed

text \<open>
  C3. The claim is that \<open>validate_phone\<close> accepts exactly the strings that, once
  trimmed, are an optional \<^verbatim>\<open>+\<close> followed by 7 to 15 ASCII digits. The pattern is
  compiled without \<^verbatim>\<open>re.ASCII\<close>, so \<^verbatim>\<open>\d\<close> also matches the decimal digits of other
  scripts: the seven Arabic-Indic digits U+0661 to U+0667 are accepted, and are not a
  phone number in the sense of the claim.
\<close>

theorem validate_phone_accepts_non_ascii_digits:
  "validate_phone (PStr [1633, 1634, 1635, 1636, 1637, 1638, 1639])
   \<and> \<not> spec_validate_phone (PStr [1633, 1634, 1635, 1636, 1637, 1638, 1639])"
  by (simp add: eval_simps spec_validate_phone_def phone_shape_def is_ascii_digit_def)

text \<open>
  C4. The claim is that \<open>validate_lat_lon\<close> returns true when both inputs are parseable
  as floats and lie in [-90, 90] and [-180, 180], and rejects every other pair, such as
  an out-of-range value. The \<^verbatim>\<open>except\<close> clause names \<^verbatim>\<open>TypeError\<close> and \<^verbatim>\<open>ValueError\<close>
  only, and \<^verbatim>\<open>float\<close> of an \<^verbatim>\<open>int\<close> too large for a double raises \<^verbatim>\<open>OverflowError\<close>: on
  the out-of-range latitude \<open>2 ^ 1024\<close> the function returns nothing and raises, where
  the claim has it return false. On every pair without such an \<^verbatim>\<open>int\<close> the function
  returns what the claim says (\<open>validate_lat_lon_total\<close>).
\<close>

theorem validate_lat_lon_raises_on_large_int:
  "validate_lat_lon sf (PInt (2 ^ 1024)) (PInt 0) = Inl OverflowError
   \<and> \<not> spec_validate_lat_lon sf (PInt (2 ^ 1024)) (PInt 0)"
proof
  show "validate_lat_lon sf (PInt (2 ^ 1024)) (PInt 0) = Inl OverflowError"
    by (rule validate_lat_lon_overflow)
  have "py_float sf (PInt (2 ^ 1024)) = Inl OverflowError"
    unfolding py_float.simps by (rule int_to_float_overflow)
  then show "\<not> spec_validate_lat_lon sf (PInt (2 ^ 1024)) (PInt 0)"
    unfolding spec_validate_lat_lon_def by simp
qed

text \<open>
  C5 is about requests that race at the MongoDB server. The handlers are modelled one
  call after the other, so it has no statement here; what a single call does to the
  collection, and that every run keeps the unique index, is part of C2.
\<close>

text \<open>
  C6. The claim gives, for every request body, a 400 response when a field is missing.
  A JSON body that is not an object has none of the fields, and the handler does not
  answer 400: \<^verbatim>\<open>data.get\<close> raises \<^verbatim>\<open>AttributeError\<close>, here for the body \<^verbatim>\<open>[]\<close>.
\<close>

theorem update_location_non_object_body:
  "update_location sf now \<lparr>is_json = True, get_json = Some (PList [])\<rparr> c
     = (Inl AttributeError, c)"
  by (simp add: update_location_def)

text \<open>
  C7. Store failure: when the \<^verbatim>\<open>update_one\<close> of a POST request that passed validation,
  or the \<^verbatim>\<open>find_one\<close> of a GET request with a valid phone, raises a \<^verbatim>\<open>PyMongoError\<close>
  with message \<open>msg\<close>, the handler answers 500 with the body
  \<^verbatim>\<open>{"error": "Database error", "details": msg}\<close>; it has issued that one operation and
  no other, and the documents are unchanged.
\<close>

theorem store_failure_500:
  "(is_json req \<and> get_json req = Some (PDict kv)
      \<and> validate_phone (dict_get kv (ustr ''phone''))
      \<and> validate_lat_lon sf (dict_get kv (ustr ''latitude''))
            (dict_get kv (ustr ''longitude'')) = Inr True
      \<and> pending c = Some msg # rest \<longrightarrow>
      update_location sf now req c =
        (Inr (PDict [(ustr ''error'', PStr (ustr ''Database error'')),
                     (ustr ''details'', PStr msg)], 500),
         c\<lparr>pending := rest\<rparr>))
   \<and> (validate_phone (PStr p) \<and> pending c = Some msg # rest \<longrightarrow>
      get_latest_location p c =
        ((PDict [(ustr ''error'', PStr (ustr ''Database error'')),
                 (ustr ''details'', PStr msg)], 500),
         c\<lparr>pending := rest\<rparr>))"
proof (intro conjI impI)
  assume a: "is_json req \<and> get_json req = Some (PDict kv)
      \<and> validate_phone (dict_get kv (ustr ''phone''))
      \<and> validate_lat_lon sf (dict_get kv (ustr ''latitude''))
            (dict_get kv (ustr ''longitude'')) = Inr True
      \<and> pending c = Some msg # rest"
  then obtain s where s: "dict_get kv (ustr ''phone'') = PStr s"
    using validate_phone_str by blast
  from a obtain la lo where f:
    "py_float sf (dict_get kv (ustr ''latitude'')) = Inr la"
    "py_float sf (dict_get kv (ustr ''longitude'')) = Inr lo"
    "lat_in_range la" "lon_in_range lo"
    unfolding validate_lat_lon_True by blast
  from a have n: "next_outcome c = (Some msg, c\<lparr>pending := rest\<rparr>)"
    by (simp add: next_outcome_fault)
  from a s have v: "is_json req" "get_json req = Some (PDict kv)" "validate_phone (PStr s)"
    by simp_all
  show "update_location sf now req c =
        (Inr (PDict [(ustr ''error'', PStr (ustr ''Database error'')),
                     (ustr ''details'', PStr msg)], 500),
         c\<lparr>pending := rest\<rparr>)"
    by (simp add: update_location_valid[OF v(1,2) s v(3) f] n)
next
  assume "validate_phone (PStr p) \<and> pending c = Some msg # rest"
  then show "get_latest_location p c =
        ((PDict [(ustr ''error'', PStr (ustr ''Database error'')),
                 (ustr ''details'', PStr msg)], 500),
         c\<lparr>pending := rest\<rparr>)"
    by (simp add: get_latest_location_def find_one_def next_outcome_fault)
qed

theorem store_failure_500_witness:
  "validate_phone (PStr (ustr ''+15551234567''))
   \<and> validate_lat_lon sample_float (PFloat (Finite (75 / 2))) (PFloat (Finite (- 122))) = Inr True
   \<and> pending failing_collection = Some (ustr ''connection refused'') # []
   \<and> update_location sample_float t0
        (post_body (ustr ''+15551234567'') (PFloat (Finite (75 / 2))) (PFloat (Finite (- 122))))
        failing_collection =
        (Inr (PDict [(ustr ''error'', PStr (ustr ''Database error'')),
                     (ustr ''details'', PStr (ustr ''connection refused''))], 500),
         failing_collection\<lparr>pending := []\<rparr>)
   \<and> get_latest_location (ustr ''+15551234567'') failing_collection =
        ((PDict [(ustr ''error'', PStr (ustr ''Database error'')),
                 (ustr ''details'', PStr (ustr ''connection refused''))], 500),
         failing_collection\<lparr>pending := []\<rparr>)"
proof -
  have v: "validate_phone (PStr (ustr ''+15551234567''))"
    by (simp add: eval_simps)
  have l: "validate_lat_lon sample_float (PFloat (Finite (75 / 2))) (PFloat (Finite (- 122)))
           = Inr True"
    by (simp add: eval_simps)
  have p: "pending failing_collection = Some (ustr ''connection refused'') # []"
    by (simp add: failing_collection_def)
  have j: "is_json (post_body (ustr ''+15551234567'') (PFloat (Finite (75 / 2)))
                      (PFloat (Finite (- 122))))"
    "get_json (post_body (ustr ''+15551234567'') (PFloat (Finite (75 / 2)))
                      (PFloat (Finite (- 122)))) =
       Some (PDict [(ustr ''phone'', PStr (ustr ''+15551234567'')),
                    (ustr ''latitude'', PFloat (Finite (75 / 2))),
                    (ustr ''longitude'', PFloat (Finite (- 122)))])"
    by (simp_all add: post_body_def)
  have d: "dict_get [(ustr ''phone'', PStr (ustr ''+15551234567'')),
                    (ustr ''latitude'', PFloat (Finite (75 / 2))),
                    (ustr ''longitude'', PFloat (Finite (- 122)))] (ustr ''phone'')
             = PStr (ustr ''+15551234567'')"
    "dict_get [(ustr ''phone'', PStr (ustr ''+15551234567'')),
                    (ustr ''latitude'', PFloat (Finite (75 / 2))),
                    (ustr ''longitude'', PFloat (Finite (- 122)))] (ustr ''latitude'')
             = PFloat (Finite (75 / 2))"
    "dict_get [(ustr ''phone'', PStr (ustr ''+15551234567'')),
                    (ustr ''latitude'', PFloat (Finite (75 / 2))),
                    (ustr ''longitude'', PFloat (Finite (- 122)))] (ustr ''longitude'')
             = PFloat (Finite (- 122))"
    by (simp_all add: dict_get_def)
  from store_failure_500[where req = "post_body (ustr ''+15551234567'') (PFloat (Finite (75 / 2)))
        (PFloat (Finite (- 122)))" and sf = sample_float and c = failing_collection
      and msg = "ustr ''connection refused''" and rest = "[]" and p = "ustr ''+15551234567''"
      and kv = "[(ustr ''phone'', PStr (ustr ''+15551234567'')),
                    (ustr ''latitude'', PFloat (Finite (75 / 2))),
                    (ustr ''longitude'', PFloat (Finite (- 122)))]" and now = t0]
  show ?thesis
    unfolding d using v l p j by blast
qed

text \<open>
  C8. Not found: for every valid phone number \<open>p\<close> that the collection did not hold at
  the start and for which no POST of the run stored a document, \<^verbatim>\<open>find_one\<close> returns
  \<^verbatim>\<open>None\<close> and the GET handler answers 404 with the body
  \<^verbatim>\<open>{"error": "No location found for this phone number"}\<close>.
\<close>

theorem get_unwritten_phone:
  assumes "validate_phone (PStr p)"
    and "p \<notin> phone ` set (docs c)"
    and "writes sf p c rs = []"
    and "next_ok (posts sf c rs)"
  shows "fst (find_one p (posts sf c rs)) = Inr None
     \<and> fst (get_latest_location p (posts sf c rs)) =
         (PDict [(ustr ''error'', PStr (ustr ''No location found for this phone number''))], 404)"
proof -
  have "p \<notin> phone ` set (docs (posts sf c rs))"
    using posts_phones[of p sf c rs] assms(2,3) by blast
  then have "find (\<lambda>d. phone d = p) (docs (posts sf c rs)) = None"
    by (auto simp add: find_None_iff)
  moreover have "fst (next_outcome (posts sf c rs)) = None"
    using assms(4) by (simp add: next_ok_outcome)
  ultimately show ?thesis
    using assms(1) by (simp add: find_one_ok get_latest_location_ok)
qed

theorem get_unwritten_phone_witness:
  "validate_phone (PStr (ustr ''+19999999999''))
   \<and> ustr ''+19999999999'' \<notin> phone ` set (docs empty_collection)
   \<and> writes sample_float (ustr ''+19999999999'') empty_collection
        [(t0, post_body (ustr ''+15551234567'') (PFloat (Finite (75 / 2))) (PFloat (Finite (- 122))))]
      = []
   \<and> next_ok (posts sample_float empty_collection
        [(t0, post_body (ustr ''+15551234567'') (PFloat (Finite (75 / 2))) (PFloat (Finite (- 122))))])
   \<and> fst (get_latest_location (ustr ''+19999999999'')
        (posts sample_float empty_collection
          [(t0, post_body (ustr ''+15551234567'') (PFloat (Finite (75 / 2)))
                  (PFloat (Finite (- 122))))])) =
       (PDict [(ustr ''error'', PStr (ustr ''No location found for this phone number''))], 404)"
proof -
  let ?rs = "[(t0, post_body (ustr ''+15551234567'') (PFloat (Finite (75 / 2)))
                     (PFloat (Finite (- 122))))]"
  have v: "validate_phone (PStr (ustr ''+19999999999''))"
    by (simp add: eval_simps)
  have e: "ustr ''+19999999999'' \<notin> phone ` set (docs empty_collection)"
    by (simp add: empty_collection_def)
  have w: "writes sample_float (ustr ''+19999999999'') empty_collection ?rs = []"
    by (simp add: eval_simps)
  have n: "next_ok (posts sample_float empty_collection ?rs)"
    by (simp add: eval_simps)
  from get_unwritten_phone[OF v e w n] v e w n show ?thesis
    by (intro conjI) simp_all
qed

text \<open>
  C9 as stated fails: the handler tests \<^verbatim>\<open>request.is_json\<close>, the declared content type,
  and not the body. A request that declares JSON and whose body does not parse is not
  answered with \<^verbatim>\<open>{"error": "Request body must be JSON"}\<close>: \<^verbatim>\<open>get_json\<close> raises
  \<^verbatim>\<open>BadRequest\<close>.
\<close>

theorem unparsable_json_body_counterexample:
  "\<not> update_location sample_float t0 \<lparr>is_json = True, get_json = None\<rparr> empty_collection
       = (Inr (PDict [(ustr ''error'', PStr (ustr ''Request body must be JSON''))], 400),
          empty_collection)
   \<and> fst (update_location sample_float t0 \<lparr>is_json = True, get_json = None\<rparr> empty_collection)
       = Inl BadRequest"
  by (simp add: update_location_def)

text \<open>
  C9, as amended. A POST request that is not declared as JSON (\<^verbatim>\<open>request.is_json\<close> is
  false) is answered 400 with the body \<^verbatim>\<open>{"error": "Request body must be JSON"}\<close>, before
  any validation and with the collection untouched.
\<close>

theorem not_json_rejected:
  assumes "\<not> is_json req"
  shows "update_location sf now req c =
     (Inr (PDict [(ustr ''error'', PStr (ustr ''Request body must be JSON''))], 400), c)"
  using assms by (simp add: update_location_def)

theorem not_json_rejected_witness:
  "\<not> is_json \<lparr>is_json = False, get_json = Some (PStr (ustr ''abc''))\<rparr>
   \<and> update_location sample_float t0 \<lparr>is_json = False, get_json = Some (PStr (ustr ''abc''))\<rparr>
        empty_collection =
      (Inr (PDict [(ustr ''error'', PStr (ustr ''Request body must be JSON''))], 400),
       empty_collection)"
proof -
  have n: "\<not> is_json \<lparr>is_json = False, get_json = Some (PStr (ustr ''abc''))\<rparr>"
    by simp
  from not_json_rejected[OF n] n show ?thesis
    by blast
qed

text \<open>
  C10. \<open>validate_lat_lon\<close> accepts every pair of values that \<^verbatim>\<open>float\<close> converts to
  numbers in the ranges, whatever their type: booleans and numeric strings as well as
  JSON numbers. When both values convert and one of them converts to NaN or to an
  infinity, it returns false.
\<close>

theorem validate_lat_lon_any_convertible:
  "(py_float sf lat = Inr la \<and> py_float sf lon = Inr lo \<and> lat_in_range la \<and> lon_in_range lo
      \<longrightarrow> validate_lat_lon sf lat lon = Inr True)
   \<and> validate_lat_lon sf (PBool b) (PBool b') = Inr True
   \<and> (py_float sf x = Inr fx \<and> py_float sf y = Inr fy
        \<and> (fx \<in> {NaN, PosInf, NegInf} \<or> fy \<in> {NaN, PosInf, NegInf})
      \<longrightarrow> validate_lat_lon sf x y = Inr False)"
proof (intro conjI impI)
  assume "py_float sf lat = Inr la \<and> py_float sf lon = Inr lo
          \<and> lat_in_range la \<and> lon_in_range lo"
  then show "validate_lat_lon sf lat lon = Inr True"
    unfolding validate_lat_lon_True by blast
next
  show "validate_lat_lon sf (PBool b) (PBool b') = Inr True"
    by (simp add: validate_lat_lon_def)
next
  assume "py_float sf x = Inr fx \<and> py_float sf y = Inr fy
        \<and> (fx \<in> {NaN, PosInf, NegInf} \<or> fy \<in> {NaN, PosInf, NegInf})"
  then show "validate_lat_lon sf x y = Inr False"
    by (cases fx; cases fy) (auto simp add: validate_lat_lon_def)
qed

theorem validate_lat_lon_any_convertible_witness:
  "py_float sample_float (PStr (ustr ''45.0'')) = Inr (Finite 45)
   \<and> py_float sample_float (PStr (ustr ''-120.5'')) = Inr (Finite (- 241 / 2))
   \<and> lat_in_range (Finite 45) \<and> lon_in_range (Finite (- 241 / 2))
   \<and> validate_lat_lon sample_float (PStr (ustr ''45.0'')) (PStr (ustr ''-120.5'')) = Inr True
   \<and> py_float sample_float (PStr (ustr ''nan'')) = Inr NaN
   \<and> py_float sample_float (PInt 0) = Inr (Finite 0)
   \<and> validate_lat_lon sample_float (PStr (ustr ''nan'')) (PInt 0) = Inr False
   \<and> validate_lat_lon sample_float (PBool True) (PBool False) = Inr True"
proof -
  have a: "py_float sample_float (PStr (ustr ''45.0'')) = Inr (Finite 45)"
    "py_float sample_float (PStr (ustr ''-120.5'')) = Inr (Finite (- 241 / 2))"
    "lat_in_range (Finite 45)" "lon_in_range (Finite (- 241 / 2))"
    "py_float sample_float (PStr (ustr ''nan'')) = Inr NaN"
    "py_float sample_float (PInt 0) = Inr (Finite 0)"
    by (simp_all add: sample_float_def ustr_def lat_in_range_def lon_in_range_def
        int_to_float_small)
  from validate_lat_lon_any_convertible[where sf = sample_float
      and lat = "PStr (ustr ''45.0'')" and lon = "PStr (ustr ''-120.5'')"
      and la = "Finite 45" and lo = "Finite (- 241 / 2)"
      and x = "PStr (ustr ''nan'')" and y = "PInt 0" and fx = NaN and fy = "Finite 0"
      and b = True and b' = False]
  show ?thesis
    using a by blast
qed

end
